theory Spec2Isabelle
  imports Main "HOL-Library.Sublist" "HOL-Library.Multiset"
begin

section \<open>The multi-RPC sniper of \<^verbatim>\<open>src/index.ts\<close>\<close>

text \<open>
  The script reacts to \<^verbatim>\<open>TokenCreate\<close> events, builds a swap transaction for every
  token whose address starts with \<^verbatim>\<open>0x4444\<close>, signs it and submits it to a pool of RPC
  endpoints. The ethers library, the wallet and the network are outside the script: they
  appear here as the answers they give, either as arguments or as fields of \<open>env\<close>.

  Conventions of the embedding:
  \<^item> a thrown JavaScript \<^verbatim>\<open>Error\<close> is a value \<open>Error msg\<close>, and a computation that may throw
    has type \<open>exn + 'a\<close> (\<open>Inl\<close> the thrown error);
  \<^item> \<^verbatim>\<open>bigint\<close> values are \<open>int\<close>; the nonce, indices and millisecond clock readings
    (JavaScript numbers holding small non-negative integers) are \<open>nat\<close>;
  \<^item> strings are \<open>string\<close>; the strings the script inspects are ASCII (hex addresses,
    hex transactions);
  \<^item> console output is not modelled, except where computing the printed text can throw
    (lines 170 and 256).
\<close>

subsection \<open>Errors and strings\<close>

datatype exn = Error (message: string)

text \<open>\<^verbatim>\<open>s.startsWith(p)\<close>.\<close>

definition startsWith :: "string \<Rightarrow> string \<Rightarrow> bool" where
  "startsWith s p = (take (length p) s = p)"

text \<open>\<^verbatim>\<open>s.toLowerCase()\<close> on ASCII text: the letters A to Z move to a to z.\<close>

definition lower_char :: "char \<Rightarrow> char" where
  "lower_char c =
     (let n = (of_char c :: nat) in if 65 \<le> n \<and> n \<le> 90 then char_of (n + 32) else c)"

definition toLowerCase :: "string \<Rightarrow> string" where
  "toLowerCase s = map lower_char s"

subsection \<open>Constants\<close>

definition ROUTER :: string where
  "ROUTER = ''0xb300000b72DEAEb607a12d5f54773D1C19c7028d''"

definition WBNB :: string where
  "WBNB = ''0xbb4CdB9CBd36B01bD1cBaEBF2De08d9173bc095c''"

definition SWAP_SELECTOR :: string where
  "SWAP_SELECTOR = ''0x810c705b''"

subsection \<open>The broadcaster: \<^verbatim>\<open>submitRawTx\<close>\<close>

text \<open>
  What one RPC provider does with \<^verbatim>\<open>broadcastTransaction(tx)\<close>: after \<open>delay\<close> milliseconds
  its promise settles, either rejected with an error (\<open>Inl\<close>) or fulfilled with a response.
  \<open>Inr None\<close> is a response that is null or carries no hash; \<open>Inr (Some h)\<close> carries the
  hash \<open>h\<close> (the empty string is falsy in JavaScript). A provider that never answers is
  one whose delay is above the timeout.
\<close>

type_synonym rpc_provider = "string \<Rightarrow> nat \<times> (exn + string option)"

text \<open>
  The object one submission resolves to: \<^verbatim>\<open>{ success: true, hash, provider }\<close> or
  \<^verbatim>\<open>{ success: false, error, provider }\<close>.
\<close>

datatype submission_result =
    is_Success: Success (hash: string) (provider: nat)
  | Failure (cause: string) (provider: nat)

text \<open>
  One element of \<^verbatim>\<open>submissions\<close> (lines 72 to 91): the provider's promise raced against
  a timer that rejects with \<^verbatim>\<open>Error('Timeout')\<close> after \<open>timeoutMs\<close>. The pair is the
  instant (milliseconds after the call) at which the submission settles and the object it
  settles to. A provider that settles exactly when the timer fires wins the race: its
  promise is the first element of the array given to \<^verbatim>\<open>Promise.race\<close> and was started
  before the timer. The \<^verbatim>\<open>catch\<close> turns every error into a \<open>Failure\<close>, so a submission is always
  fulfilled, never rejected.
\<close>

definition submission :: "nat \<Rightarrow> string \<Rightarrow> rpc_provider \<Rightarrow> nat \<Rightarrow> nat \<times> submission_result" where
  "submission timeoutMs txWithPrefix p index =
     (case p txWithPrefix of (delay, reply) \<Rightarrow>
        if delay \<le> timeoutMs then
          (delay,
           case reply of
             Inl err \<Rightarrow> Failure (message err) index
           | Inr None \<Rightarrow> Failure ''No transaction hash returned'' index
           | Inr (Some h) \<Rightarrow>
               if h = [] then Failure ''No transaction hash returned'' index
               else Success h index)
        else (timeoutMs, Failure ''Timeout'' index))"

text \<open>
  The loop of lines 97 to 110 over the settled results, in pool order: the first result
  with \<^verbatim>\<open>success && hash\<close> gives the returned hash.
\<close>

fun first_success :: "submission_result list \<Rightarrow> string option" where
  "first_success [] = None"
| "first_success (Success h i # rs) = (if h \<noteq> [] then Some h else first_success rs)"
| "first_success (Failure e i # rs) = first_success rs"

text \<open>
  \<^verbatim>\<open>await Promise.allSettled(submissions)\<close> resumes once every submission has settled:
  at the latest settling instant (at once for an empty pool).
\<close>

definition allSettled_at :: "nat list \<Rightarrow> nat" where
  "allSettled_at ts = fold max ts 0"

definition submissions :: "rpc_provider list \<Rightarrow> string \<Rightarrow> nat \<Rightarrow> (nat \<times> submission_result) list" where
  "submissions rpcProviders txWithPrefix timeoutMs =
     map (\<lambda>(index, p). submission timeoutMs txWithPrefix p index) (enumerate 0 rpcProviders)"

text \<open>Line 67: \<^verbatim>\<open>rawTx.startsWith('0x') ? rawTx : '0x' + rawTx\<close>.\<close>

definition txWithPrefix :: "string \<Rightarrow> string" where
  "txWithPrefix rawTx = (if startsWith rawTx ''0x'' then rawTx else ''0x'' @ rawTx)"

text \<open>
  \<^verbatim>\<open>submitRawTx(rawTx, timeoutMs)\<close> over the provider pool. The result is the instant at
  which the call resolves (milliseconds after it started) and what it resolves to: the
  hash, or the thrown error.
\<close>

definition submitRawTx :: "rpc_provider list \<Rightarrow> string \<Rightarrow> nat \<Rightarrow> nat \<times> (exn + string)" where
  "submitRawTx rpcProviders rawTx timeoutMs =
     (let subs = submissions rpcProviders (txWithPrefix rawTx) timeoutMs;
          results = map snd subs
      in (allSettled_at (map fst subs),
          case first_success results of
            Some txHash \<Rightarrow> Inr txHash
          | None \<Rightarrow> Inl (Error ''All RPC endpoints failed to broadcast transaction'')))"

subsection \<open>The nonce refresh\<close>

text \<open>
  The body of the \<^verbatim>\<open>setInterval\<close> callback (lines 281 to 287), once
  \<^verbatim>\<open>getTransactionCount\<close> has answered \<open>latestNonce\<close>; the result is the new
  \<^verbatim>\<open>currentNonce.value\<close>.
\<close>

definition refreshNonce :: "nat \<Rightarrow> nat \<Rightarrow> nat" where
  "refreshNonce latestNonce currentNonce =
     (if latestNonce > currentNonce then latestNonce else currentNonce)"


subsection \<open>The world outside the script\<close>

text \<open>
  The transaction handed to the signer (\<^verbatim>\<open>txRequest\<close>, lines 188 to 196) and the one
  handed to the simulation (\<^verbatim>\<open>simTx\<close>, lines 153 to 157).
\<close>

record tx_request =
  tx_to :: string
  tx_data :: string
  tx_value :: int
  gasLimit :: int
  gasPrice :: int
  nonce :: nat
  chainId :: int

record sim_tx =
  sim_to :: string
  sim_data :: string
  sim_value :: int

text \<open>
  What the wallet, its provider, the ethers library and the process environment answer to
  one run of \<^verbatim>\<open>simulateAndBuyViaRouter\<close>:
  \<^item> \<open>now\<close>: \<^verbatim>\<open>Date.now()\<close> at line 137;
  \<^item> \<open>parseEther\<close>: \<^verbatim>\<open>ethers.parseEther\<close>, the amount in wei or a thrown error;
  \<^item> \<open>getAddress\<close>: \<^verbatim>\<open>wallet.getAddress()\<close>;
  \<^item> \<open>encodeFunctionData\<close>: \<^verbatim>\<open>iface.encodeFunctionData('swapExactETHForTokens', [amountOutMin, path, to, deadline])\<close>;
  \<^item> \<open>provider_call\<close>: \<^verbatim>\<open>wallet.provider.call(simTx)\<close>;
  \<^item> \<open>decodeFunctionResult\<close>: \<^verbatim>\<open>iface.decodeFunctionResult('swapExactETHForTokens', simResult)[0]\<close>;
  \<^item> \<open>getFeeData\<close>: the \<^verbatim>\<open>gasPrice\<close> field of \<^verbatim>\<open>wallet.provider.getFeeData()\<close>, \<open>None\<close> for null;
  \<^item> \<open>signTransaction\<close>: \<^verbatim>\<open>wallet.signTransaction(txRequest)\<close>;
  \<^item> \<open>rpcProviders\<close>: the pool built from \<^verbatim>\<open>BSC_RPC_ENDPOINTS\<close>;
  \<^item> \<open>env_BUY_AMOUNT_BNB\<close>: \<^verbatim>\<open>process.env.BUY_AMOUNT_BNB\<close>, \<open>None\<close> when unset.
\<close>

record env =
  now :: nat
  parseEther :: "string \<Rightarrow> exn + int"
  getAddress :: "exn + string"
  encodeFunctionData :: "int \<Rightarrow> string list \<Rightarrow> string \<Rightarrow> nat \<Rightarrow> exn + string"
  provider_call :: "sim_tx \<Rightarrow> exn + string"
  decodeFunctionResult :: "string \<Rightarrow> exn + int list"
  getFeeData :: "exn + int option"
  signTransaction :: "tx_request \<Rightarrow> exn + string"
  rpcProviders :: "rpc_provider list"
  env_BUY_AMOUNT_BNB :: "string option"

text \<open>\<^verbatim>\<open>process.env.BUY_AMOUNT_BNB || '0.0001'\<close>: an unset or empty variable gives the default.\<close>

definition BUY_AMOUNT_BNB :: "env \<Rightarrow> string" where
  "BUY_AMOUNT_BNB e =
     (case env_BUY_AMOUNT_BNB e of
        None \<Rightarrow> ''0.0001''
      | Some s \<Rightarrow> if s = [] then ''0.0001'' else s)"

subsection \<open>Building the transaction\<close>

text \<open>
  \<^verbatim>\<open>encodeSwapParams\<close> (lines 117 to 120): the full call data without its first ten
  characters.
\<close>

definition encodeSwapParams :: "env \<Rightarrow> int \<Rightarrow> string list \<Rightarrow> string \<Rightarrow> nat \<Rightarrow> exn + string" where
  "encodeSwapParams e amountOutMin path to deadline =
     (case encodeFunctionData e amountOutMin path to deadline of
        Inl err \<Rightarrow> Inl err
      | Inr fullData \<Rightarrow> Inr (drop 10 fullData))"

text \<open>
  The inner \<^verbatim>\<open>try\<close> of lines 160 to 174: the pair \<^verbatim>\<open>(simOut, simulationSuccess)\<close> after
  it. A failing call or decoding leaves both at their initial values. An empty array of
  amounts makes \<^verbatim>\<open>simOut\<close> undefined (\<open>None\<close>), the flag is set, and only then does
  \<^verbatim>\<open>formatUnits\<close> throw into the same \<^verbatim>\<open>catch\<close>.
\<close>

definition simulate :: "env \<Rightarrow> sim_tx \<Rightarrow> int option \<times> bool" where
  "simulate e simTx =
     (case provider_call e simTx of
        Inl simError \<Rightarrow> (Some 0, False)
      | Inr simResult \<Rightarrow>
          (case decodeFunctionResult e simResult of
             Inl simError \<Rightarrow> (Some 0, False)
           | Inr simAmounts \<Rightarrow>
               (if simAmounts = [] then None else Some (last simAmounts), True)))"

text \<open>
  Lines 135 to 186, everything before \<^verbatim>\<open>txRequest\<close>. The second component is what the
  later steps need, or the error thrown on the way. The first component is
  \<^verbatim>\<open>simulationSuccess\<close> as line 176 logs it, when the run gets that far: a failing
  \<^verbatim>\<open>getFeeData\<close> (line 182) comes after that line.
\<close>

record prepared =
  p_funds :: int
  p_data :: string
  p_gasPrice :: int
  p_simOut :: "int option"
  p_simulationSuccess :: bool

definition prepare :: "env \<Rightarrow> string \<Rightarrow> string \<Rightarrow> bool option \<times> (exn + prepared)" where
  "prepare e tokenAddress amountInBNB =
     (case parseEther e amountInBNB of
        Inl err \<Rightarrow> (None, Inl err)
      | Inr funds \<Rightarrow>
     (let path = [WBNB, tokenAddress];
          deadline = now e div 1000 + 20 * 60
      in
      case getAddress e of
        Inl err \<Rightarrow> (None, Inl err)
      | Inr to \<Rightarrow>
     (let amountOutMin = 0 in
      case encodeSwapParams e amountOutMin path to deadline of
        Inl err \<Rightarrow> (None, Inl err)
      | Inr paramsEncoded \<Rightarrow>
     (let simData = SWAP_SELECTOR @ paramsEncoded;
          simTx = \<lparr>sim_to = ROUTER, sim_data = simData, sim_value = funds\<rparr>;
          sim = simulate e simTx
      in
      case getFeeData e of
        Inl err \<Rightarrow> (Some (snd sim), Inl err)
      | Inr fee \<Rightarrow>
     (let price = (case fee of
                     None \<Rightarrow> 3000000000
                   | Some g \<Rightarrow> if g = 0 then 3000000000 else g);
          data = SWAP_SELECTOR @ paramsEncoded
      in (Some (snd sim),
          Inr \<lparr>p_funds = funds, p_data = data, p_gasPrice = price,
               p_simOut = fst sim, p_simulationSuccess = snd sim\<rparr>))))))"

text \<open>Lines 188 to 196: the request, with the nonce read from the shared counter.\<close>

definition txRequest :: "prepared \<Rightarrow> nat \<Rightarrow> tx_request" where
  "txRequest p currentNonce =
     \<lparr>tx_to = ROUTER, tx_data = p_data p, tx_value = p_funds p, gasLimit = 500000,
      gasPrice = p_gasPrice p, nonce = currentNonce, chainId = 56\<rparr>"

text \<open>
  Lines 198 to 204: sign, strip the prefix, broadcast with a timeout of 30000 ms. The
  first component is the raw transaction given to \<^verbatim>\<open>submitRawTx\<close>, if the signer got
  that far; the second is the hash, or the error thrown by the signer or the broadcaster.
\<close>

definition sign_and_submit :: "env \<Rightarrow> tx_request \<Rightarrow> string option \<times> (exn + string)" where
  "sign_and_submit e tx =
     (case signTransaction e tx of
        Inl err \<Rightarrow> (None, Inl err)
      | Inr signedTx \<Rightarrow>
          (let rawTx = drop 2 signedTx
           in (Some rawTx, snd (submitRawTx (rpcProviders e) rawTx 30000))))"

subsection \<open>The dispatch entry point: \<^verbatim>\<open>simulateAndBuyViaRouter\<close>\<close>

record dispatch_result =
  success :: bool
  txHash :: "string option"
  error :: "string option"

text \<open>The two \<^verbatim>\<open>return\<close> statements, lines 209 and 213.\<close>

definition succeeded :: "string \<Rightarrow> dispatch_result" where
  "succeeded h = \<lparr>success = True, txHash = Some h, error = None\<rparr>"

definition failed :: "exn \<Rightarrow> dispatch_result" where
  "failed err = \<lparr>success = False, txHash = None, error = Some (message err)\<rparr>"

text \<open>
  One run observed from outside: the promise of the async function (\<open>Inl\<close> would be a
  rejection, \<open>Inr\<close> the value it resolves to), the shared counter afterwards, the request
  that reached the signer (if the run got that far), the raw transaction that reached
  \<^verbatim>\<open>submitRawTx\<close> (if any), and the simulation flag of line 176 (if the run got
  that far).
\<close>

record dispatch_run =
  outcome :: "exn + dispatch_result"
  nonce_after :: nat
  signed_request :: "tx_request option"
  broadcast_raw :: "string option"
  sim_flag :: "bool option"

text \<open>
  \<^verbatim>\<open>simulateAndBuyViaRouter(tokenAddress, amountInBNB, wallet, router, currentNonce)\<close>
  run without interruption from the counter value \<open>currentNonce\<close>. Every error of
  \<open>prepare\<close> and \<open>sign_and_submit\<close> lands in the \<^verbatim>\<open>catch\<close> of line 211; the increment of
  line 207 is reached only after \<^verbatim>\<open>submitRawTx\<close> has returned a hash.
\<close>

definition simulateAndBuyViaRouter :: "env \<Rightarrow> string \<Rightarrow> string \<Rightarrow> nat \<Rightarrow> dispatch_run" where
  "simulateAndBuyViaRouter e tokenAddress amountInBNB currentNonce =
     (case prepare e tokenAddress amountInBNB of
        (flag, Inl err) \<Rightarrow>
          \<lparr>outcome = Inr (failed err), nonce_after = currentNonce,
           signed_request = None, broadcast_raw = None, sim_flag = flag\<rparr>
      | (flag, Inr p) \<Rightarrow>
          (let tx = txRequest p currentNonce in
           case sign_and_submit e tx of
             (raw, Inl err) \<Rightarrow>
               \<lparr>outcome = Inr (failed err), nonce_after = currentNonce,
                signed_request = Some tx, broadcast_raw = raw, sim_flag = flag\<rparr>
           | (raw, Inr h) \<Rightarrow>
               \<lparr>outcome = Inr (succeeded h), nonce_after = currentNonce + 1,
                signed_request = Some tx, broadcast_raw = raw, sim_flag = flag\<rparr>))"

text \<open>
  Dispatches that run one after the other, each to its end before the next starts, on
  the shared counter: the list of runs.
\<close>

fun dispatch_in_turn :: "(env \<times> string \<times> string) list \<Rightarrow> nat \<Rightarrow> dispatch_run list" where
  "dispatch_in_turn [] n = []"
| "dispatch_in_turn ((e, token, amount) # rest) n =
     (let r = simulateAndBuyViaRouter e token amount n
      in r # dispatch_in_turn rest (nonce_after r))"

text \<open>The nonce a run put into the request it had signed, if it got that far.\<close>

definition used_nonce :: "dispatch_run \<Rightarrow> nat option" where
  "used_nonce r = map_option nonce (signed_request r)"

definition run_succeeded :: "dispatch_run \<Rightarrow> bool" where
  "run_succeeded r = (case outcome r of Inl err \<Rightarrow> False | Inr d \<Rightarrow> success d)"

subsection \<open>Overlapping dispatches\<close>

text \<open>
  The event callback does not await the dispatch it starts (line 264), so several runs
  of \<^verbatim>\<open>simulateAndBuyViaRouter\<close> can be in flight, interleaved at their \<^verbatim>\<open>await\<close>
  points. Only two stretches of a run touch the shared \<^verbatim>\<open>currentNonce\<close>: line 194 reads
  it (after the awaits of lines 139, 164 and 182), and line 207 increments it (after the
  awaits of lines 198 and 204). An instance is therefore in one of three phases:
  \<^item> \<open>Triggered\<close>: started, line 194 not yet reached;
  \<^item> \<open>InFlight\<close>: the request is built with the nonce it read, signing or broadcast pending;
  \<^item> \<open>Finished\<close>: resolved, with the request it had signed, if any.
  The stretches before line 194 read no shared state, so they are folded into the step
  that reaches line 194.
\<close>

datatype dispatch_instance =
    is_Triggered: Triggered env string string
  | is_InFlight: InFlight env tx_request
  | Finished dispatch_result "tx_request option"

record sys =
  currentNonce_value :: nat
  instances :: "dispatch_instance list"

text \<open>
  The two callbacks below are async functions whose promise nobody handles: the event
  emitter and \<^verbatim>\<open>setInterval\<close> drop it, and the script installs no handler for unhandled
  rejections. An error thrown inside them therefore ends the process. A step of the
  system is \<open>Inr\<close> the next state, or \<open>Inl\<close> the error the process ends with.
\<close>

text \<open>
  The \<^verbatim>\<open>TokenCreate\<close> callback (lines 240 to 275) for an event naming \<open>token\<close> with the
  given \<open>launchTime\<close> (a \<^verbatim>\<open>uint256\<close>); \<open>e\<close> is what the outside world will answer to the
  dispatch this event may start. The other fields of the event are only printed. For a
  matching token, line 256 prints \<^verbatim>\<open>new Date(Number(launchTime) * 1000).toISOString()\<close>
  before the dispatch of line 264; a time value above 8640000000000000 ms is not a date,
  and \<^verbatim>\<open>toISOString\<close> throws a \<^verbatim>\<open>RangeError\<close>. The conversion to a number and the product
  are exact up to that bound, and rounding keeps larger values above it.
\<close>

definition onTokenCreate :: "env \<Rightarrow> string \<Rightarrow> nat \<Rightarrow> sys \<Rightarrow> exn + sys" where
  "onTokenCreate e token launchTime s =
     (if \<not> startsWith (toLowerCase token) ''0x4444'' then Inr s
      else if launchTime * 1000 > 8640000000000000 then Inl (Error ''Invalid time value'')
      else Inr (s\<lparr>instances := instances s @ [Triggered e token (BUY_AMOUNT_BNB e)]\<rparr>))"

text \<open>
  Instance \<open>i\<close> runs up to its next stop. A dispatch never rejects, and the handlers of
  lines 265 to 274 only print.
\<close>

definition advance :: "nat \<Rightarrow> sys \<Rightarrow> sys" where
  "advance i s =
     (if i < length (instances s) then
        (case instances s ! i of
           Triggered e token amount \<Rightarrow>
             (case snd (prepare e token amount) of
                Inl err \<Rightarrow> s\<lparr>instances := (instances s)[i := Finished (failed err) None]\<rparr>
              | Inr p \<Rightarrow>
                  s\<lparr>instances :=
                      (instances s)[i := InFlight e (txRequest p (currentNonce_value s))]\<rparr>)
         | InFlight e tx \<Rightarrow>
             (case snd (sign_and_submit e tx) of
                Inl err \<Rightarrow> s\<lparr>instances := (instances s)[i := Finished (failed err) (Some tx)]\<rparr>
              | Inr h \<Rightarrow>
                  s\<lparr>currentNonce_value := currentNonce_value s + 1,
                    instances := (instances s)[i := Finished (succeeded h) (Some tx)]\<rparr>)
         | Finished r tx \<Rightarrow> s)
      else s)"

text \<open>
  The refresh timer fires (lines 281 to 287) and \<^verbatim>\<open>getTransactionCount\<close> answers \<open>r\<close>.
  A rejected query is thrown by the \<^verbatim>\<open>await\<close> of line 282, with no \<^verbatim>\<open>catch\<close> around it.
\<close>

definition refresh :: "exn + nat \<Rightarrow> sys \<Rightarrow> exn + sys" where
  "refresh r s =
     (case r of
        Inl err \<Rightarrow> Inl err
      | Inr latestNonce \<Rightarrow>
          Inr (s\<lparr>currentNonce_value := refreshNonce latestNonce (currentNonce_value s)\<rparr>))"

datatype action = TokenCreate env string nat | Advance nat | Refresh "exn + nat"

fun step :: "action \<Rightarrow> sys \<Rightarrow> exn + sys" where
  "step (TokenCreate e token launchTime) s = onTokenCreate e token launchTime s"
| "step (Advance i) s = Inr (advance i s)"
| "step (Refresh r) s = refresh r s"

fun run :: "action list \<Rightarrow> sys \<Rightarrow> exn + sys" where
  "run [] s = Inr s"
| "run (a # as) s = (case step a s of Inl err \<Rightarrow> Inl err | Inr s' \<Rightarrow> run as s')"

text \<open>The nonces in the requests the instances have built so far, in spawning order.\<close>

fun nonce_of :: "dispatch_instance \<Rightarrow> nat option" where
  "nonce_of (Triggered e token amount) = None"
| "nonce_of (InFlight e tx) = Some (nonce tx)"
| "nonce_of (Finished r tx) = map_option nonce tx"

text \<open>The nonces of the dispatches that have succeeded so far.\<close>

fun won :: "dispatch_instance \<Rightarrow> nat list" where
  "won (Finished r (Some tx)) = (if success r then [nonce tx] else [])"
| "won i = []"

definition successful_nonces :: "sys \<Rightarrow> nat list" where
  "successful_nonces s = concat (map won (instances s))"

text \<open>
  Schedules in which the dispatches take turns on the counter. In state \<open>s\<close> an action
  is \<open>undisturbed\<close> when
  \<^item> it makes an instance build its request (read the counter) only if no other instance
    is in flight, that is between its own read and its completion;
  \<^item> it is a refresh that observes no value above the counter, so that it adopts nothing.
  A schedule is \<open>in_turn\<close> from \<open>s\<close> when each of its actions is undisturbed in the
  state it meets.
\<close>

definition idle :: "sys \<Rightarrow> bool" where
  "idle s = list_all (\<lambda>x. \<not> is_InFlight x) (instances s)"

fun undisturbed :: "action \<Rightarrow> sys \<Rightarrow> bool" where
  "undisturbed (TokenCreate e token launchTime) s = True"
| "undisturbed (Advance i) s =
     (if i < length (instances s) \<and> is_Triggered (instances s ! i) then idle s else True)"
| "undisturbed (Refresh r) s =
     (case r of Inl err \<Rightarrow> True | Inr latestNonce \<Rightarrow> latestNonce \<le> currentNonce_value s)"

fun in_turn :: "action list \<Rightarrow> sys \<Rightarrow> bool" where
  "in_turn [] s = True"
| "in_turn (a # as) s =
     (undisturbed a s \<and> (case step a s of Inl err \<Rightarrow> True | Inr s' \<Rightarrow> in_turn as s'))"

text \<open>
  What holds of every state such a schedule reaches from counter \<open>n\<close>: the successful
  dispatches have used exactly the values from \<open>n\<close> up to the counter, and an instance in
  flight is the only one, holding the current value of the counter.
\<close>

definition turn_inv :: "nat \<Rightarrow> sys \<Rightarrow> bool" where
  "turn_inv n s =
     (n \<le> currentNonce_value s
      \<and> mset (successful_nonces s) = mset [n ..< currentNonce_value s]
      \<and> (\<forall>i < length (instances s). is_InFlight (instances s ! i) \<longrightarrow>
            nonce_of (instances s ! i) = Some (currentNonce_value s)
            \<and> (\<forall>j < length (instances s). j \<noteq> i \<longrightarrow> \<not> is_InFlight (instances s ! j))))"

subsection \<open>Scenarios\<close>

text \<open>
  Concrete surroundings on which the definitions are evaluated. \<open>answers d r\<close> is a
  provider that settles after \<open>d\<close> milliseconds with \<open>r\<close>, whatever the transaction.
\<close>

definition answers :: "nat \<Rightarrow> exn + string option \<Rightarrow> rpc_provider" where
  "answers d r = (\<lambda>tx. (d, r))"

text \<open>
  Three endpoints, the second accepts after 50 ms, the others stay silent beyond any
  timeout used here.
\<close>

definition pool_one_fast :: "rpc_provider list" where
  "pool_one_fast =
     [answers 60000 (Inr (Some ''0xabc1'')),
      answers 50 (Inr (Some ''0xabc1'')),
      answers 60000 (Inr (Some ''0xabc1''))]"

text \<open>Two endpoints that both accept, the second one first, reporting different hashes.\<close>

definition pool_two_hashes :: "rpc_provider list" where
  "pool_two_hashes =
     [answers 80 (Inr (Some ''0xaaaa'')), answers 50 (Inr (Some ''0xbbbb''))]"

text \<open>Three endpoints that all reject the transaction.\<close>

definition pool_all_reject :: "rpc_provider list" where
  "pool_all_reject =
     [answers 20 (Inl (Error ''nonce too low'')),
      answers 30 (Inl (Error ''nonce too low'')),
      answers 10 (Inl (Error ''nonce too low''))]"

text \<open>A failing endpoint followed by two accepting ones, and the same answers at other delays.\<close>

definition pool_mixed :: "rpc_provider list" where
  "pool_mixed =
     [answers 10 (Inl (Error ''underpriced'')),
      answers 80 (Inr (Some ''0xaaaa'')),
      answers 50 (Inr (Some ''0xbbbb''))]"

definition pool_mixed_retimed :: "rpc_provider list" where
  "pool_mixed_retimed =
     [answers 700 (Inl (Error ''underpriced'')),
      answers 20 (Inr (Some ''0xaaaa'')),
      answers 500 (Inr (Some ''0xbbbb''))]"

text \<open>
  Surroundings in which every step works: the simulation reverts, the fee estimate is
  1 gwei, the signer answers a hex string that depends on the nonce.
\<close>

definition calm :: env where
  "calm =
     \<lparr>now = 1700000000999,
      parseEther = (\<lambda>a. if a = ''0.0001'' then Inr 100000000000000 else Inl (Error ''invalid FixedNumber string value'')),
      getAddress = Inr ''0x00000000000000000000000000000000000000Aa'',
      encodeFunctionData = (\<lambda>amountOutMin path to deadline. Inr (''0x7ff36ab5'' @ ''00'' @ concat path @ to)),
      provider_call = (\<lambda>simTx. Inl (Error ''execution reverted'')),
      decodeFunctionResult = (\<lambda>simResult. Inr []),
      getFeeData = Inr (Some 1000000000),
      signTransaction = (\<lambda>tx. Inr (''0xf86b'' @ replicate (nonce tx) CHR ''1'')),
      rpcProviders = pool_one_fast,
      env_BUY_AMOUNT_BNB = None\<rparr>"


text \<open>The same surroundings, except that every endpoint rejects the transaction.\<close>

definition stormy :: env where
  "stormy = calm\<lparr>rpcProviders := pool_all_reject\<rparr>"

text \<open>The same surroundings, except that the simulation answers and decodes to two amounts.\<close>

definition calm_simulated :: env where
  "calm_simulated =
     calm\<lparr>provider_call := (\<lambda>simTx. Inr ''0x01''),
          decodeFunctionResult := (\<lambda>simResult. Inr [100000000000000, 250])\<rparr>"

section \<open>Properties\<close>

subsection \<open>The broadcaster\<close>

lemma first_success_no_success:
  "\<forall>r\<in>set rs. \<not> is_Success r \<Longrightarrow> first_success rs = None"
  by (induction rs rule: first_success.induct) auto

lemma first_success_lowest:
  "i < length rs \<Longrightarrow> rs ! i = Success h k \<Longrightarrow> h \<noteq> [] \<Longrightarrow> \<forall>j<i. \<not> is_Success (rs ! j)
     \<Longrightarrow> first_success rs = Some h"
proof (induction rs arbitrary: i rule: first_success.induct)
  case 1
  then show ?case by simp
next
  case (2 h' i' rs)
  then show ?case by (cases i) auto
next
  case (3 e i' rs)
  show ?case
  proof (cases i)
    case 0
    with 3 show ?thesis by simp
  next
    case (Suc m)
    with 3 have "first_success rs = Some h" by (intro "3.IH"[of m]) auto
    then show ?thesis by simp
  qed
qed

lemma submission_hash_nonempty:
  "snd (submission t tx p i) = Success h k \<Longrightarrow> h \<noteq> []"
  by (auto simp: submission_def split: prod.splits if_splits sum.splits option.splits)

lemma submissions_nth:
  "i < length ps \<Longrightarrow> submissions ps tx t ! i = submission t tx (ps ! i) i"
  by (simp add: submissions_def nth_enumerate_eq)

lemma length_submissions: "length (submissions ps tx t) = length ps"
  by (simp add: submissions_def)

lemma submitRawTx_result:
  "snd (submitRawTx ps raw t) =
     (case first_success (map snd (submissions ps (txWithPrefix raw) t)) of
        Some h \<Rightarrow> Inr h
      | None \<Rightarrow> Inl (Error ''All RPC endpoints failed to broadcast transaction''))"
  by (simp add: submitRawTx_def Let_def)

lemmas pool_eval =
  submitRawTx_def submissions_def submission_def txWithPrefix_def startsWith_def
  allSettled_at_def answers_def enumerate_eq_zip

text \<open>
  Claim C10. Whenever some submission succeeds, \<^verbatim>\<open>submitRawTx\<close> returns the hash of the
  successful submission with the lowest index in the pool. The choice depends on the
  list of settled results in pool order only: a second pool (and timeout) whose
  submissions settle to the same results, at whatever instants, gives the same hash.
\<close>

theorem submitRawTx_lowest_index_success:
  assumes "results = map snd (submissions ps (txWithPrefix rawTx) timeoutMs)"
      and "map snd (submissions ps' (txWithPrefix rawTx) timeoutMs') = results"
      and "i < length results"
      and "results ! i = Success h k"
      and "\<forall>j<i. \<not> is_Success (results ! j)"
  shows "snd (submitRawTx ps rawTx timeoutMs) = Inr h
         \<and> snd (submitRawTx ps' rawTx timeoutMs') = Inr h"
proof -
  from assms(1,3) have i: "i < length ps" by (simp add: length_submissions)
  with assms(1,4) have "snd (submission timeoutMs (txWithPrefix rawTx) (ps ! i) i) = Success h k"
    by (simp add: submissions_nth length_submissions)
  then have "h \<noteq> []" by (rule submission_hash_nonempty)
  with assms(3-5) have "first_success results = Some h"
    by (intro first_success_lowest) auto
  with assms(1,2) show ?thesis by (simp add: submitRawTx_result)
qed

text \<open>
  On \<open>pool_mixed\<close> the first endpoint fails, the second accepts after 80 ms and the third
  after 50 ms; \<open>pool_mixed_retimed\<close> gives the same answers at other instants. Both
  return the hash of the second endpoint.
\<close>

theorem submitRawTx_lowest_index_success_witness:
  "snd (submitRawTx pool_mixed ''f86b'' 5000) = Inr ''0xaaaa''
   \<and> snd (submitRawTx pool_mixed_retimed ''f86b'' 5000) = Inr ''0xaaaa''"
proof -
  let ?rs = "[Failure ''underpriced'' 0, Success ''0xaaaa'' 1, Success ''0xbbbb'' 2]"
  have r: "?rs = map snd (submissions pool_mixed (txWithPrefix ''f86b'') 5000)"
    by (simp add: pool_eval pool_mixed_def)
  have r': "map snd (submissions pool_mixed_retimed (txWithPrefix ''f86b'') 5000) = ?rs"
    by (simp add: pool_eval pool_mixed_retimed_def)
  have i: "(1::nat) < length ?rs" by simp
  have s: "?rs ! 1 = Success ''0xaaaa'' 1" by simp
  have f: "\<forall>j<(1::nat). \<not> is_Success (?rs ! j)" by simp
  show ?thesis by (rule submitRawTx_lowest_index_success [OF r r' i s f])
qed

text \<open>
  Claim C1 says that \<^verbatim>\<open>submitRawTx\<close> resolves as soon as the first success is there,
  with the hash of the success that arrived first. The code awaits
  \<^verbatim>\<open>Promise.allSettled\<close>, under the comment "Wait for first successful response". On
  \<open>pool_one_fast\<close> with a timeout of 5000 ms the second endpoint accepts after 50 ms
  and the two others time out: the call resolves at 5000 ms. On \<open>pool_two_hashes\<close> the
  second endpoint accepts first, after 50 ms: the call resolves at 80 ms with the hash
  of the first endpoint.
\<close>

theorem submitRawTx_waits_for_all:
  "map fst (submissions pool_one_fast (txWithPrefix ''f86b'') 5000) = [5000, 50, 5000]
   \<and> submitRawTx pool_one_fast ''f86b'' 5000 = (5000, Inr ''0xabc1'')
   \<and> map fst (submissions pool_two_hashes (txWithPrefix ''f86b'') 5000) = [80, 50]
   \<and> submitRawTx pool_two_hashes ''f86b'' 5000 = (80, Inr ''0xaaaa'')"
  by (simp add: pool_eval pool_one_fast_def pool_two_hashes_def)

text \<open>
  Claim C3 says that when all N submissions fail, the error enumerates N causes, one per
  endpoint. On \<open>pool_all_reject\<close> the three submissions fail with "nonce too low"; the
  thrown error has the fixed message below, in which that cause does not occur, and it
  is the very error thrown for an empty pool.
\<close>

theorem aggregate_error_counterexample:
  "map snd (submissions pool_all_reject (txWithPrefix ''f86b'') 5000)
     = [Failure ''nonce too low'' 0, Failure ''nonce too low'' 1, Failure ''nonce too low'' 2]
   \<and> snd (submitRawTx pool_all_reject ''f86b'' 5000)
     = Inl (Error ''All RPC endpoints failed to broadcast transaction'')
   \<and> \<not> sublist ''nonce too low'' ''All RPC endpoints failed to broadcast transaction''
   \<and> snd (submitRawTx [] ''f86b'' 5000) = snd (submitRawTx pool_all_reject ''f86b'' 5000)"
  by (simp add: pool_eval pool_all_reject_def sublist_Cons_right prefix_Cons)

text \<open>
  Claim C3, amended. When no submission settles to a success, \<^verbatim>\<open>submitRawTx\<close> throws an
  error with the fixed message "All RPC endpoints failed to broadcast transaction",
  whatever the number of endpoints and their causes.
\<close>

theorem submitRawTx_all_failed:
  assumes "\<forall>r \<in> set (map snd (submissions ps (txWithPrefix rawTx) timeoutMs)). \<not> is_Success r"
  shows "snd (submitRawTx ps rawTx timeoutMs)
           = Inl (Error ''All RPC endpoints failed to broadcast transaction'')"
  using first_success_no_success [OF assms] by (simp add: submitRawTx_result)

theorem submitRawTx_all_failed_witness:
  "snd (submitRawTx pool_all_reject ''f86b'' 5000)
     = Inl (Error ''All RPC endpoints failed to broadcast transaction'')"
proof -
  have "\<forall>r \<in> set (map snd (submissions pool_all_reject (txWithPrefix ''f86b'') 5000)).
          \<not> is_Success r"
    by (simp add: pool_eval pool_all_reject_def)
  then show ?thesis by (rule submitRawTx_all_failed)
qed

subsection \<open>The nonce counter\<close>

text \<open>
  Claim C5. The periodic refresh is monotonic and idempotent. When the value it observes
  is strictly greater than the counter, the counter adopts it; when the observed value is
  less than or equal to the counter, the refresh changes nothing. No refresh decreases
  the counter, and a second refresh with the same observed value changes nothing more.
\<close>

theorem refresh_monotonic_idempotent:
  "(currentNonce_value s < latestNonce \<longrightarrow>
      refresh (Inr latestNonce) s = Inr (s\<lparr>currentNonce_value := latestNonce\<rparr>))
   \<and> (latestNonce \<le> currentNonce_value s \<longrightarrow> refresh (Inr latestNonce) s = Inr s)
   \<and> (\<exists>s'. refresh (Inr latestNonce) s = Inr s'
          \<and> currentNonce_value s \<le> currentNonce_value s'
          \<and> refresh (Inr latestNonce) s' = Inr s')"
  by (simp add: refresh_def refreshNonce_def)

theorem refresh_monotonic_idempotent_witness:
  "refresh (Inr 9) \<lparr>currentNonce_value = 7, instances = []\<rparr>
       = Inr \<lparr>currentNonce_value = 9, instances = []\<rparr>
   \<and> refresh (Inr 5) \<lparr>currentNonce_value = 7, instances = []\<rparr>
       = Inr \<lparr>currentNonce_value = 7, instances = []\<rparr>"
  using refresh_monotonic_idempotent [of "\<lparr>currentNonce_value = 7, instances = []\<rparr>" 9]
        refresh_monotonic_idempotent [of "\<lparr>currentNonce_value = 7, instances = []\<rparr>" 5]
  by simp

subsection \<open>One dispatch\<close>

lemma nonce_after_cases:
  "nonce_after (simulateAndBuyViaRouter e tok amt n)
     = (if run_succeeded (simulateAndBuyViaRouter e tok amt n) then n + 1 else n)"
  by (simp add: simulateAndBuyViaRouter_def run_succeeded_def succeeded_def failed_def Let_def
           split: sum.splits prod.splits)

lemma signed_request_nonce:
  "signed_request (simulateAndBuyViaRouter e tok amt n) = Some tx \<Longrightarrow> nonce tx = n"
  by (auto simp: simulateAndBuyViaRouter_def txRequest_def Let_def split: sum.splits prod.splits)

lemma calm_run:
  "simulateAndBuyViaRouter calm tok ''0.0001'' n =
     \<lparr>outcome = Inr \<lparr>success = True, txHash = Some ''0xabc1'', error = None\<rparr>,
      nonce_after = n + 1,
      signed_request = Some
        \<lparr>tx_to = ROUTER,
         tx_data = ''0x810c705b'' @ ''00'' @ WBNB @ tok @ ''0x00000000000000000000000000000000000000Aa'',
         tx_value = 100000000000000, gasLimit = 500000, gasPrice = 1000000000,
         nonce = n, chainId = 56\<rparr>,
      broadcast_raw = Some (''f86b'' @ replicate n CHR ''1''),
      sim_flag = Some False\<rparr>"
  by (simp add: simulateAndBuyViaRouter_def prepare_def encodeSwapParams_def txRequest_def
        sign_and_submit_def simulate_def succeeded_def calm_def SWAP_SELECTOR_def
        pool_one_fast_def pool_eval)

lemma stormy_run:
  "simulateAndBuyViaRouter stormy tok ''0.0001'' n =
     \<lparr>outcome = Inr \<lparr>success = False, txHash = None,
                      error = Some ''All RPC endpoints failed to broadcast transaction''\<rparr>,
      nonce_after = n,
      signed_request = Some
        \<lparr>tx_to = ROUTER,
         tx_data = ''0x810c705b'' @ ''00'' @ WBNB @ tok @ ''0x00000000000000000000000000000000000000Aa'',
         tx_value = 100000000000000, gasLimit = 500000, gasPrice = 1000000000,
         nonce = n, chainId = 56\<rparr>,
      broadcast_raw = Some (''f86b'' @ replicate n CHR ''1''),
      sim_flag = Some False\<rparr>"
  by (simp add: simulateAndBuyViaRouter_def prepare_def encodeSwapParams_def txRequest_def
        sign_and_submit_def simulate_def failed_def stormy_def calm_def SWAP_SELECTOR_def
        pool_all_reject_def pool_eval)

text \<open>
  Claim C7. For a target, an amount and a nonce, the request handed to the signer has
  exactly these fields: the destination is the router; the data is the selector
  \<^verbatim>\<open>0x810c705b\<close> followed by the encoded parameters (minimum output 0, path from the
  base asset to the target, the wallet's own address, deadline 1200 seconds after the
  build time in seconds), that is the library's call data without its own ten-character
  selector prefix; the value is the amount in wei; the gas limit is 500000; the gas price
  is the fee estimate, or 3 gwei when the estimate is null or zero; the chain id is 56.
\<close>

theorem built_transaction_fields:
  assumes "parseEther e amountInBNB = Inr wei"
      and "getAddress e = Inr own"
      and "encodeFunctionData e 0 [WBNB, tokenAddress] own (now e div 1000 + 1200)
             = Inr (standard_selector @ params)"
      and "length standard_selector = 10"
      and "getFeeData e = Inr fee"
  shows "signed_request (simulateAndBuyViaRouter e tokenAddress amountInBNB n) =
           Some \<lparr>tx_to = ''0xb300000b72DEAEb607a12d5f54773D1C19c7028d'',
                 tx_data = ''0x810c705b'' @ params,
                 tx_value = wei,
                 gasLimit = 500000,
                 gasPrice = (case fee of None \<Rightarrow> 3000000000
                             | Some g \<Rightarrow> if g = 0 then 3000000000 else g),
                 nonce = n,
                 chainId = 56\<rparr>"
  using assms
  by (simp add: simulateAndBuyViaRouter_def prepare_def encodeSwapParams_def txRequest_def
                ROUTER_def SWAP_SELECTOR_def Let_def split: sum.splits prod.splits)

theorem built_transaction_fields_witness:
  "signed_request (simulateAndBuyViaRouter calm ''0x4444aa'' ''0.0001'' 7) =
     Some \<lparr>tx_to = ''0xb300000b72DEAEb607a12d5f54773D1C19c7028d'',
           tx_data = ''0x810c705b00'' @ WBNB @ ''0x4444aa''
                       @ ''0x00000000000000000000000000000000000000Aa'',
           tx_value = 100000000000000, gasLimit = 500000, gasPrice = 1000000000,
           nonce = 7, chainId = 56\<rparr>"
proof -
  have a: "parseEther calm ''0.0001'' = Inr 100000000000000" by (simp add: calm_def)
  have b: "getAddress calm = Inr ''0x00000000000000000000000000000000000000Aa''"
    by (simp add: calm_def)
  have c: "encodeFunctionData calm 0 [WBNB, ''0x4444aa'']
             ''0x00000000000000000000000000000000000000Aa'' (now calm div 1000 + 1200)
           = Inr (''0x7ff36ab5'' @ (''00'' @ WBNB @ ''0x4444aa''
                    @ ''0x00000000000000000000000000000000000000Aa''))"
    by (simp add: calm_def)
  have d: "length ''0x7ff36ab5'' = 10" by simp
  have e: "getFeeData calm = Inr (Some 1000000000)" by (simp add: calm_def)
  from built_transaction_fields [OF a b c d e, where n = 7] show ?thesis by simp
qed

text \<open>
  Claim C6. Two runs that differ only in what the simulation call and the decoding of
  its result answer sign the same request, broadcast the same raw transaction, resolve
  to the same result and leave the same counter: a failing simulation never becomes a
  failing dispatch.
\<close>

theorem simulation_does_not_interfere:
  "let r1 = simulateAndBuyViaRouter (e\<lparr>provider_call := call1, decodeFunctionResult := decode1\<rparr>) tok amt n;
       r2 = simulateAndBuyViaRouter (e\<lparr>provider_call := call2, decodeFunctionResult := decode2\<rparr>) tok amt n
   in outcome r1 = outcome r2 \<and> signed_request r1 = signed_request r2
      \<and> broadcast_raw r1 = broadcast_raw r2 \<and> nonce_after r1 = nonce_after r2"
  by (simp add: simulateAndBuyViaRouter_def prepare_def encodeSwapParams_def txRequest_def
                sign_and_submit_def Let_def split: sum.splits prod.splits)

text \<open>
  With a reverting simulation the flag is false, with an answering one it is true; the
  request and the result are the same.
\<close>

theorem simulation_does_not_interfere_witness:
  "sim_flag (simulateAndBuyViaRouter calm ''0x4444aa'' ''0.0001'' 7) = Some False
   \<and> sim_flag (simulateAndBuyViaRouter calm_simulated ''0x4444aa'' ''0.0001'' 7) = Some True
   \<and> outcome (simulateAndBuyViaRouter calm_simulated ''0x4444aa'' ''0.0001'' 7)
       = Inr \<lparr>success = True, txHash = Some ''0xabc1'', error = None\<rparr>
   \<and> signed_request (simulateAndBuyViaRouter calm_simulated ''0x4444aa'' ''0.0001'' 7)
       = signed_request (simulateAndBuyViaRouter calm ''0x4444aa'' ''0.0001'' 7)"
proof -
  have c: "calm\<lparr>provider_call := provider_call calm,
               decodeFunctionResult := decodeFunctionResult calm\<rparr> = calm"
    by simp
  have f: "sim_flag (simulateAndBuyViaRouter calm_simulated ''0x4444aa'' ''0.0001'' 7) = Some True"
    by (simp add: simulateAndBuyViaRouter_def prepare_def encodeSwapParams_def txRequest_def
        sign_and_submit_def simulate_def succeeded_def calm_simulated_def calm_def
        SWAP_SELECTOR_def pool_one_fast_def pool_eval)
  from simulation_does_not_interfere
         [where e = calm and ?call1.0 = "provider_call calm"
            and ?decode1.0 = "decodeFunctionResult calm"
            and tok = "''0x4444aa''" and amt = "''0.0001''" and n = 7
            and ?call2.0 = "\<lambda>simTx. Inr ''0x01''"
            and ?decode2.0 = "\<lambda>simResult. Inr [100000000000000, 250]"]
  have "outcome (simulateAndBuyViaRouter calm ''0x4444aa'' ''0.0001'' 7)
          = outcome (simulateAndBuyViaRouter calm_simulated ''0x4444aa'' ''0.0001'' 7)
        \<and> signed_request (simulateAndBuyViaRouter calm ''0x4444aa'' ''0.0001'' 7)
          = signed_request (simulateAndBuyViaRouter calm_simulated ''0x4444aa'' ''0.0001'' 7)"
    unfolding c calm_simulated_def Let_def by blast
  with f show ?thesis by (simp add: calm_run)
qed

text \<open>
  Claim C9. No failure of a single endpoint leaves the broadcaster: the only error
  \<^verbatim>\<open>submitRawTx\<close> throws is the aggregate one. The dispatch entry point never rejects:
  on every path it resolves to a value, with a hash and no error when it succeeded, with
  an error and no hash when it failed.
\<close>

theorem dispatch_never_throws:
  "(\<forall>err. snd (submitRawTx ps rawTx timeoutMs) = Inl err \<longrightarrow>
        err = Error ''All RPC endpoints failed to broadcast transaction'')
   \<and> (\<exists>d. outcome (simulateAndBuyViaRouter e tok amt n) = Inr d
          \<and> (if success d then txHash d \<noteq> None \<and> error d = None
              else txHash d = None \<and> error d \<noteq> None))"
  by (auto simp: submitRawTx_result simulateAndBuyViaRouter_def succeeded_def failed_def Let_def
           split: sum.splits prod.splits option.splits)

theorem dispatch_never_throws_witness:
  "snd (submitRawTx pool_all_reject ''f86b'' 5000)
     = Inl (Error ''All RPC endpoints failed to broadcast transaction'')
   \<and> outcome (simulateAndBuyViaRouter stormy ''0x4444aa'' ''0.0001'' 7)
     = Inr \<lparr>success = False, txHash = None,
            error = Some ''All RPC endpoints failed to broadcast transaction''\<rparr>"
proof -
  have "\<exists>err. snd (submitRawTx pool_all_reject ''f86b'' 5000) = Inl err"
    by (simp add: pool_eval pool_all_reject_def)
  with dispatch_never_throws [of pool_all_reject "''f86b''" 5000 stormy "''0x4444aa''" "''0.0001''" 7]
  show ?thesis by (auto simp: stormy_run)
qed

subsection \<open>The nonce across dispatches\<close>

text \<open>
  Claim C4 says that after an aggregate broadcast failure the counter stands one ahead,
  so that the next dispatch uses a strictly greater nonce. In \<open>stormy\<close> surroundings the
  first dispatch fails at the broadcast with nonce 7 and leaves the counter at 7; the
  next dispatch uses 7 again.
\<close>

theorem failed_broadcast_keeps_nonce:
  "map run_succeeded (dispatch_in_turn
      [(stormy, ''0x4444aa'', ''0.0001''), (calm, ''0x4444bb'', ''0.0001'')] 7) = [False, True]
   \<and> map nonce_after (dispatch_in_turn
      [(stormy, ''0x4444aa'', ''0.0001''), (calm, ''0x4444bb'', ''0.0001'')] 7) = [7, 8]
   \<and> map used_nonce (dispatch_in_turn
      [(stormy, ''0x4444aa'', ''0.0001''), (calm, ''0x4444bb'', ''0.0001'')] 7) = [Some 7, Some 7]"
  by (simp add: Let_def stormy_run calm_run run_succeeded_def used_nonce_def)

text \<open>
  Claim C4, amended. A dispatch that succeeds leaves the counter one higher. A dispatch
  that fails, at the build, at the signer or at the broadcast, leaves the counter
  unchanged, so that a dispatch started from the counter it leaves puts the same nonce
  into its request.
\<close>

theorem nonce_advances_only_on_success:
  "(run_succeeded (simulateAndBuyViaRouter e tok amt n)
      \<longrightarrow> nonce_after (simulateAndBuyViaRouter e tok amt n) = n + 1)
   \<and> (\<not> run_succeeded (simulateAndBuyViaRouter e tok amt n)
      \<longrightarrow> nonce_after (simulateAndBuyViaRouter e tok amt n) = n
          \<and> (\<forall>tx. signed_request (simulateAndBuyViaRouter e' tok' amt'
                     (nonce_after (simulateAndBuyViaRouter e tok amt n))) = Some tx
                   \<longrightarrow> nonce tx = n))"
  by (auto simp: nonce_after_cases dest: signed_request_nonce)

theorem nonce_advances_only_on_success_witness:
  "nonce_after (simulateAndBuyViaRouter calm ''0x4444aa'' ''0.0001'' 7) = 8
   \<and> nonce_after (simulateAndBuyViaRouter stormy ''0x4444aa'' ''0.0001'' 7) = 7
   \<and> used_nonce (simulateAndBuyViaRouter calm ''0x4444bb'' ''0.0001''
        (nonce_after (simulateAndBuyViaRouter stormy ''0x4444aa'' ''0.0001'' 7))) = Some 7"
proof -
  have ok: "run_succeeded (simulateAndBuyViaRouter calm ''0x4444aa'' ''0.0001'' 7)"
    by (simp add: calm_run run_succeeded_def)
  have ko: "\<not> run_succeeded (simulateAndBuyViaRouter stormy ''0x4444aa'' ''0.0001'' 7)"
    by (simp add: stormy_run run_succeeded_def)
  have sg: "signed_request (simulateAndBuyViaRouter calm ''0x4444bb'' ''0.0001''
              (nonce_after (simulateAndBuyViaRouter stormy ''0x4444aa'' ''0.0001'' 7)))
            = Some (txRequest \<lparr>p_funds = 100000000000000,
                 p_data = ''0x810c705b'' @ ''00'' @ WBNB @ ''0x4444bb'' @ ''0x00000000000000000000000000000000000000Aa'',
                 p_gasPrice = 1000000000, p_simOut = Some 0, p_simulationSuccess = False\<rparr>
                 (nonce_after (simulateAndBuyViaRouter stormy ''0x4444aa'' ''0.0001'' 7)))"
    by (simp add: calm_run txRequest_def)
  from nonce_advances_only_on_success [of calm "''0x4444aa''" "''0.0001''" 7] ok
  have a: "nonce_after (simulateAndBuyViaRouter calm ''0x4444aa'' ''0.0001'' 7) = 8" by simp
  from nonce_advances_only_on_success
         [of stormy "''0x4444aa''" "''0.0001''" 7 calm "''0x4444bb''" "''0.0001''"] ko sg
  have b: "nonce_after (simulateAndBuyViaRouter stormy ''0x4444aa'' ''0.0001'' 7) = 7
           \<and> nonce (txRequest \<lparr>p_funds = 100000000000000,
                 p_data = ''0x810c705b'' @ ''00'' @ WBNB @ ''0x4444bb'' @ ''0x00000000000000000000000000000000000000Aa'',
                 p_gasPrice = 1000000000, p_simOut = Some 0, p_simulationSuccess = False\<rparr>
                 (nonce_after (simulateAndBuyViaRouter stormy ''0x4444aa'' ''0.0001'' 7))) = 7"
    by blast
  with a sg show ?thesis by (simp add: used_nonce_def txRequest_def)
qed

text \<open>
  An instance advanced twice in a row does what one uninterrupted run of
  \<^verbatim>\<open>simulateAndBuyViaRouter\<close> does from the counter it finds.
\<close>

lemma advance_twice:
  assumes "i < length (instances s)"
      and "instances s ! i = Triggered e tok amt"
      and "outcome (simulateAndBuyViaRouter e tok amt (currentNonce_value s)) = Inr d"
  shows "advance i (advance i s) =
           s\<lparr>currentNonce_value := nonce_after (simulateAndBuyViaRouter e tok amt (currentNonce_value s)),
             instances := (instances s)[i := Finished d
                (signed_request (simulateAndBuyViaRouter e tok amt (currentNonce_value s)))]\<rparr>"
  using assms
  by (auto simp: advance_def simulateAndBuyViaRouter_def Let_def split: sum.splits prod.splits)

subsection \<open>The event filter\<close>

lemma lower_char_eq:
  "lower_char c = d \<longleftrightarrow>
     (if 65 \<le> (of_char c :: nat) \<and> (of_char c :: nat) \<le> 90
      then (of_char d :: nat) = of_char c + 32 else d = c)"
proof (cases "65 \<le> (of_char c :: nat) \<and> (of_char c :: nat) \<le> 90")
  case True
  then have m: "(of_char c + 32) mod 256 = (of_char c + 32 :: nat)" by simp
  have "char_of (of_char c + 32 :: nat) = d \<longleftrightarrow> (of_char d :: nat) = of_char c + 32"
  proof
    assume "char_of (of_char c + 32 :: nat) = d"
    then have "(of_char d :: nat) = of_char (char_of (of_char c + 32 :: nat))" by simp
    with m show "(of_char d :: nat) = of_char c + 32" by simp
  next
    assume "(of_char d :: nat) = of_char c + 32"
    then have "char_of (of_char c + 32 :: nat) = char_of (of_char d :: nat)" by simp
    then show "char_of (of_char c + 32 :: nat) = d" by simp
  qed
  with True show ?thesis by (simp add: lower_char_def Let_def)
next
  case False
  then show ?thesis by (auto simp: lower_char_def Let_def)
qed

lemma lower_char_0: "lower_char c = CHR ''0'' \<longleftrightarrow> c = CHR ''0''"
  by (auto simp: lower_char_eq)

lemma lower_char_4: "lower_char c = CHR ''4'' \<longleftrightarrow> c = CHR ''4''"
  by (auto simp: lower_char_eq)

lemma lower_char_x: "lower_char c = CHR ''x'' \<longleftrightarrow> c = CHR ''x'' \<or> c = CHR ''X''"
proof -
  have "(of_char c :: nat) = 88 \<longleftrightarrow> c = CHR ''X''"
  proof
    assume "(of_char c :: nat) = 88"
    then have "(of_char c :: nat) = of_char CHR ''X''" by simp
    then show "c = CHR ''X''" by (simp only: of_char_eq_iff)
  qed simp
  then show ?thesis by (auto simp: lower_char_eq)
qed

lemma matches_prefix:
  "startsWith (toLowerCase token) ''0x4444''
     \<longleftrightarrow> (\<exists>rest. token = ''0x4444'' @ rest \<or> token = ''0X4444'' @ rest)"
proof -
  have "startsWith (toLowerCase token) ''0x4444'' \<longleftrightarrow> map lower_char (take 6 token) = ''0x4444''"
  proof -
    have l: "length ''0x4444'' = 6" by simp
    show ?thesis unfolding startsWith_def toLowerCase_def l take_map ..
  qed
  also have "\<dots> \<longleftrightarrow> take 6 token = ''0x4444'' \<or> take 6 token = ''0X4444''"
    by (auto simp: map_eq_Cons_conv lower_char_0 lower_char_4 lower_char_x)
  also have "\<dots> \<longleftrightarrow> (\<exists>rest. token = ''0x4444'' @ rest \<or> token = ''0X4444'' @ rest)"
  proof
    assume "take 6 token = ''0x4444'' \<or> take 6 token = ''0X4444''"
    then have "token = ''0x4444'' @ drop 6 token \<or> token = ''0X4444'' @ drop 6 token"
      by (metis append_take_drop_id)
    then show "\<exists>rest. token = ''0x4444'' @ rest \<or> token = ''0X4444'' @ rest" by blast
  next
    assume "\<exists>rest. token = ''0x4444'' @ rest \<or> token = ''0X4444'' @ rest"
    then show "take 6 token = ''0x4444'' \<or> take 6 token = ''0X4444''" by auto
  qed
  finally show ?thesis .
qed

lemma calm_amount: "BUY_AMOUNT_BNB calm = ''0.0001''"
  by (simp add: BUY_AMOUNT_BNB_def calm_def)

text \<open>
  The three ways of the callback: a token that fails the test changes nothing; a token
  that passes spawns one dispatch instance when its launch time can be printed, and
  ends the process otherwise.
\<close>

lemma onTokenCreate_cases:
  "(\<not> startsWith (toLowerCase token) ''0x4444''
      \<longrightarrow> step (TokenCreate e token launchTime) s = Inr s)
   \<and> (startsWith (toLowerCase token) ''0x4444'' \<and> launchTime \<le> 8640000000000
      \<longrightarrow> step (TokenCreate e token launchTime) s
            = Inr (s\<lparr>instances := instances s @ [Triggered e token (BUY_AMOUNT_BNB e)]\<rparr>))
   \<and> (startsWith (toLowerCase token) ''0x4444'' \<and> launchTime > 8640000000000
      \<longrightarrow> step (TokenCreate e token launchTime) s = Inl (Error ''Invalid time value''))"
  by (auto simp: onTokenCreate_def)

text \<open>
  Claim C8 says that a record whose identifier does not start with the prefix is dropped
  and that a record whose identifier matches schedules exactly one dispatch instance.
  The first half holds. For a matching record the callback prints the launch time
  (line 256) before it starts the dispatch (line 264, under the comments "Target found!
  Log and execute" and "CRITICAL: Simulate and buy"): with a launch time of
  8640000000001 seconds \<^verbatim>\<open>toISOString\<close> throws and no dispatch is started, where a launch
  time of 8640000000000 starts one. A record that does not match is dropped before
  that line, whatever its launch time.
\<close>

theorem matching_event_unprintable_launchTime:
  "step (TokenCreate calm ''0x4444aa'' 8640000000001) \<lparr>currentNonce_value = 7, instances = []\<rparr>
     = Inl (Error ''Invalid time value'')
   \<and> step (TokenCreate calm ''0X4444Aa'' 8640000000000) \<lparr>currentNonce_value = 7, instances = []\<rparr>
     = Inr \<lparr>currentNonce_value = 7, instances = [Triggered calm ''0X4444Aa'' ''0.0001'']\<rparr>
   \<and> step (TokenCreate calm ''0x1234ab'' 8640000000001) \<lparr>currentNonce_value = 7, instances = []\<rparr>
     = Inr \<lparr>currentNonce_value = 7, instances = []\<rparr>"
  by (simp add: onTokenCreate_def matches_prefix calm_amount)

subsection \<open>Dispatches that overlap, dispatches that take turns\<close>

lemma calm_prepare:
  "snd (prepare calm tok ''0.0001'') =
     Inr \<lparr>p_funds = 100000000000000,
          p_data = ''0x810c705b'' @ ''00'' @ WBNB @ tok @ ''0x00000000000000000000000000000000000000Aa'',
          p_gasPrice = 1000000000, p_simOut = Some 0, p_simulationSuccess = False\<rparr>"
  by (simp add: prepare_def encodeSwapParams_def simulate_def calm_def SWAP_SELECTOR_def)

lemma calm_sign_and_submit:
  "snd (sign_and_submit calm tx) = Inr ''0xabc1''"
  by (simp add: sign_and_submit_def calm_def pool_one_fast_def pool_eval)

lemma token_aa: "startsWith (toLowerCase ''0x4444aa'') ''0x4444''"
  by (simp add: matches_prefix)

lemma token_bb: "startsWith (toLowerCase ''0x4444bb'') ''0x4444''"
  by (simp add: matches_prefix)

lemmas world_eval =
  onTokenCreate_def token_aa token_bb calm_amount advance_def calm_prepare
  calm_sign_and_submit refresh_def refreshNonce_def txRequest_def succeeded_def

text \<open>
  Claim C2 says that concurrently triggered dispatches reserve distinct consecutive
  nonces by one atomic read-and-increment. The code reads the counter at line 194 and
  increments it at line 207, after the signer and the broadcast have been awaited. In
  the first run two events arrive and both instances build their request before either
  completes: both dispatches succeed with nonce 7. In the second run the dispatches
  do not overlap, but a refresh between them adopts the value 20: the dispatches
  succeed with nonces 7 and 20.
\<close>

theorem overlapping_dispatches_share_nonce:
  "map_sum id successful_nonces (run
      [TokenCreate calm ''0x4444aa'' 1700000000, TokenCreate calm ''0x4444bb'' 1700000000,
       Advance 0, Advance 1, Advance 0, Advance 1]
      \<lparr>currentNonce_value = 7, instances = []\<rparr>) = Inr [7, 7]
   \<and> map_sum id successful_nonces (run
      [TokenCreate calm ''0x4444aa'' 1700000000, Advance 0, Advance 0, Refresh (Inr 20),
       TokenCreate calm ''0x4444bb'' 1700000000, Advance 1, Advance 1]
      \<lparr>currentNonce_value = 7, instances = []\<rparr>) = Inr [7, 20]"
  by (simp add: world_eval successful_nonces_def)

lemma won_update:
  "i < length xs \<Longrightarrow> won (xs ! i) = []
     \<Longrightarrow> mset (concat (map won (xs[i := x]))) = mset (won x) + mset (concat (map won xs))"
proof (induction xs arbitrary: i)
  case Nil
  then show ?case by simp
next
  case (Cons y ys)
  then show ?case by (cases i) simp_all
qed

lemma idle_nth: "idle s \<longleftrightarrow> (\<forall>i < length (instances s). \<not> is_InFlight (instances s ! i))"
  by (simp add: idle_def list_all_length)

lemma turn_inv_replace:
  assumes inv: "turn_inv n s"
      and i: "i < length (instances s)"
      and w: "won (instances s ! i) = []"
      and others: "\<forall>j < length (instances s). j \<noteq> i \<longrightarrow> \<not> is_InFlight (instances s ! j)"
      and x: "won x = []" "is_InFlight x \<longrightarrow> nonce_of x = Some (currentNonce_value s)"
  shows "turn_inv n (s\<lparr>instances := (instances s)[i := x]\<rparr>)"
proof -
  let ?s' = "s\<lparr>instances := (instances s)[i := x]\<rparr>"
  from inv have le: "n \<le> currentNonce_value ?s'" by (simp add: turn_inv_def)
  from inv have "mset (successful_nonces s) = mset [n ..< currentNonce_value s]"
    by (simp add: turn_inv_def)
  with i w x(1) have m: "mset (successful_nonces ?s') = mset [n ..< currentNonce_value ?s']"
    by (simp add: successful_nonces_def won_update)
  have f: "\<forall>k < length (instances ?s'). is_InFlight (instances ?s' ! k) \<longrightarrow>
            nonce_of (instances ?s' ! k) = Some (currentNonce_value ?s')
            \<and> (\<forall>j < length (instances ?s'). j \<noteq> k \<longrightarrow> \<not> is_InFlight (instances ?s' ! j))"
  proof (intro allI impI)
    fix k assume k: "k < length (instances ?s')" and fl: "is_InFlight (instances ?s' ! k)"
    have ki: "k = i"
    proof (rule ccontr)
      assume "k \<noteq> i"
      with k fl others show False by simp
    qed
    with i fl x(2) have "nonce_of (instances ?s' ! k) = Some (currentNonce_value ?s')" by simp
    moreover from ki others
    have "\<forall>j < length (instances ?s'). j \<noteq> k \<longrightarrow> \<not> is_InFlight (instances ?s' ! j)" by simp
    ultimately show "nonce_of (instances ?s' ! k) = Some (currentNonce_value ?s')
            \<and> (\<forall>j < length (instances ?s'). j \<noteq> k \<longrightarrow> \<not> is_InFlight (instances ?s' ! j))" ..
  qed
  from le m f show ?thesis unfolding turn_inv_def by blast
qed

lemma turn_inv_complete:
  assumes inv: "turn_inv n s"
      and i: "i < length (instances s)"
      and fl: "instances s ! i = InFlight e tx"
      and x: "won x = [nonce tx]" "\<not> is_InFlight x"
  shows "turn_inv n (s\<lparr>currentNonce_value := currentNonce_value s + 1,
                        instances := (instances s)[i := x]\<rparr>)"
proof -
  let ?s' = "s\<lparr>currentNonce_value := currentNonce_value s + 1, instances := (instances s)[i := x]\<rparr>"
  from inv have "\<forall>i < length (instances s). is_InFlight (instances s ! i) \<longrightarrow>
            nonce_of (instances s ! i) = Some (currentNonce_value s)
            \<and> (\<forall>j < length (instances s). j \<noteq> i \<longrightarrow> \<not> is_InFlight (instances s ! j))"
    by (simp add: turn_inv_def)
  from this [rule_format, of i] i fl have nn: "nonce tx = currentNonce_value s"
    and others: "\<forall>j < length (instances s). j \<noteq> i \<longrightarrow> \<not> is_InFlight (instances s ! j)"
    by simp_all
  from inv have le0: "n \<le> currentNonce_value s" by (simp add: turn_inv_def)
  then have le: "n \<le> currentNonce_value ?s'" by simp
  from inv have "mset (successful_nonces s) = mset [n ..< currentNonce_value s]"
    by (simp add: turn_inv_def)
  moreover from fl have "won (instances s ! i) = []" by simp
  ultimately have "mset (successful_nonces ?s')
      = add_mset (currentNonce_value s) (mset [n ..< currentNonce_value s])"
    using i x(1) nn by (simp add: successful_nonces_def won_update)
  also from le0 have "\<dots> = mset [n ..< currentNonce_value ?s']" by simp
  finally have m: "mset (successful_nonces ?s') = mset [n ..< currentNonce_value ?s']" .
  have f: "\<forall>k < length (instances ?s'). \<not> is_InFlight (instances ?s' ! k)"
  proof (intro allI impI)
    fix k assume k: "k < length (instances ?s')"
    show "\<not> is_InFlight (instances ?s' ! k)"
    proof (cases "k = i")
      case True
      with i x(2) show ?thesis by simp
    next
      case False
      with k others show ?thesis by simp
    qed
  qed
  from le m f show ?thesis unfolding turn_inv_def by blast
qed


lemma turn_inv_advance:
  assumes inv: "turn_inv n s" and u: "undisturbed (Advance i) s"
  shows "turn_inv n (advance i s)"
proof (cases "i < length (instances s)")
  case False
  with inv show ?thesis by (simp add: advance_def)
next
  case i: True
  show ?thesis
  proof (cases "instances s ! i")
    case (Triggered e token amount)
    with u i have others: "\<forall>j < length (instances s). j \<noteq> i \<longrightarrow> \<not> is_InFlight (instances s ! j)"
      by (simp add: idle_nth)
    have w: "won (instances s ! i) = []" using Triggered by simp
    show ?thesis
    proof (cases "snd (prepare e token amount)")
      case (Inl err)
      with Triggered i have a: "advance i s = s\<lparr>instances := (instances s)[i := Finished (failed err) None]\<rparr>"
        by (simp add: advance_def)
      show ?thesis unfolding a
        by (rule turn_inv_replace [OF inv i w others]) simp_all
    next
      case (Inr p)
      with Triggered i have a: "advance i s =
          s\<lparr>instances := (instances s)[i := InFlight e (txRequest p (currentNonce_value s))]\<rparr>"
        by (simp add: advance_def)
      show ?thesis unfolding a
        by (rule turn_inv_replace [OF inv i w others]) (simp_all add: txRequest_def)
    qed
  next
    case (InFlight e tx)
    from inv have "\<forall>i < length (instances s). is_InFlight (instances s ! i) \<longrightarrow>
            nonce_of (instances s ! i) = Some (currentNonce_value s)
            \<and> (\<forall>j < length (instances s). j \<noteq> i \<longrightarrow> \<not> is_InFlight (instances s ! j))"
      by (simp add: turn_inv_def)
    from this [rule_format, of i] i InFlight
    have others: "\<forall>j < length (instances s). j \<noteq> i \<longrightarrow> \<not> is_InFlight (instances s ! j)"
      by simp
    have w: "won (instances s ! i) = []" using InFlight by simp
    show ?thesis
    proof (cases "snd (sign_and_submit e tx)")
      case (Inl err)
      with InFlight i have a: "advance i s =
          s\<lparr>instances := (instances s)[i := Finished (failed err) (Some tx)]\<rparr>"
        by (simp add: advance_def)
      show ?thesis unfolding a
        by (rule turn_inv_replace [OF inv i w others]) (simp_all add: failed_def)
    next
      case (Inr h)
      with InFlight i have a: "advance i s =
          s\<lparr>currentNonce_value := currentNonce_value s + 1,
            instances := (instances s)[i := Finished (succeeded h) (Some tx)]\<rparr>"
        by (simp add: advance_def)
      show ?thesis unfolding a
        by (rule turn_inv_complete [OF inv i InFlight]) (simp_all add: succeeded_def)
    qed
  next
    case (Finished r tx)
    with inv i show ?thesis by (simp add: advance_def)
  qed
qed

lemma turn_inv_spawn:
  assumes inv: "turn_inv n s" and x: "is_Triggered x"
  shows "turn_inv n (s\<lparr>instances := instances s @ [x]\<rparr>)"
proof -
  let ?s' = "s\<lparr>instances := instances s @ [x]\<rparr>"
  from x have wx: "won x = []" and nx: "\<not> is_InFlight x" by (cases x; simp)+
  from inv have le: "n \<le> currentNonce_value ?s'" by (simp add: turn_inv_def)
  from inv wx have m: "mset (successful_nonces ?s') = mset [n ..< currentNonce_value ?s']"
    by (simp add: turn_inv_def successful_nonces_def)
  from inv have old: "\<forall>i < length (instances s). is_InFlight (instances s ! i) \<longrightarrow>
            nonce_of (instances s ! i) = Some (currentNonce_value s)
            \<and> (\<forall>j < length (instances s). j \<noteq> i \<longrightarrow> \<not> is_InFlight (instances s ! j))"
    by (simp add: turn_inv_def)
  have f: "\<forall>k < length (instances ?s'). is_InFlight (instances ?s' ! k) \<longrightarrow>
            nonce_of (instances ?s' ! k) = Some (currentNonce_value ?s')
            \<and> (\<forall>j < length (instances ?s'). j \<noteq> k \<longrightarrow> \<not> is_InFlight (instances ?s' ! j))"
  proof (intro allI impI)
    fix k assume k: "k < length (instances ?s')" and fl: "is_InFlight (instances ?s' ! k)"
    from k fl nx have kl: "k < length (instances s)"
      by (cases "k = length (instances s)") (simp_all add: nth_append)
    with fl have fl': "is_InFlight (instances s ! k)" by (simp add: nth_append)
    from old [rule_format, OF kl fl'] kl
    have "nonce_of (instances ?s' ! k) = Some (currentNonce_value ?s')" by (simp add: nth_append)
    moreover have "\<forall>j < length (instances ?s'). j \<noteq> k \<longrightarrow> \<not> is_InFlight (instances ?s' ! j)"
    proof (intro allI impI)
      fix j assume j: "j < length (instances ?s')" and jk: "j \<noteq> k"
      show "\<not> is_InFlight (instances ?s' ! j)"
      proof (cases "j < length (instances s)")
        case True
        with old [rule_format, OF kl fl'] jk show ?thesis by (simp add: nth_append)
      next
        case False
        with j have "j = length (instances s)" by simp
        with nx show ?thesis by (simp add: nth_append)
      qed
    qed
    ultimately show "nonce_of (instances ?s' ! k) = Some (currentNonce_value ?s')
            \<and> (\<forall>j < length (instances ?s'). j \<noteq> k \<longrightarrow> \<not> is_InFlight (instances ?s' ! j))" ..
  qed
  from le m f show ?thesis unfolding turn_inv_def by blast
qed

lemma turn_inv_onTokenCreate:
  assumes "turn_inv n s" and "onTokenCreate e token launchTime s = Inr s'"
  shows "turn_inv n s'"
proof (cases "startsWith (toLowerCase token) ''0x4444''")
  case False
  with assms show ?thesis by (simp add: onTokenCreate_def)
next
  case True
  with assms(2) have "s' = s\<lparr>instances := instances s @ [Triggered e token (BUY_AMOUNT_BNB e)]\<rparr>"
    by (simp add: onTokenCreate_def split: if_splits)
  with assms(1) show ?thesis by (simp add: turn_inv_spawn)
qed

lemma turn_inv_refresh:
  assumes "turn_inv n s" and "undisturbed (Refresh r) s" and "refresh r s = Inr s'"
  shows "turn_inv n s'"
proof (cases r)
  case (Inl err)
  with assms(3) show ?thesis by (simp add: refresh_def)
next
  case (Inr latestNonce)
  with assms(2,3) have "s' = s" by (simp add: refresh_def refreshNonce_def)
  with assms(1) show ?thesis by simp
qed

lemma turn_inv_step:
  assumes "turn_inv n s" and "undisturbed a s" and "step a s = Inr s'"
  shows "turn_inv n s'"
proof (cases a)
  case (TokenCreate e token launchTime)
  with assms show ?thesis by (simp add: turn_inv_onTokenCreate)
next
  case (Advance i)
  with assms(3) have "s' = advance i s" by simp
  with assms(1,2) Advance show ?thesis by (simp only: turn_inv_advance)
next
  case (Refresh r)
  with assms show ?thesis by (simp add: turn_inv_refresh)
qed

lemma turn_inv_run:
  "turn_inv n s \<Longrightarrow> in_turn acts s \<Longrightarrow> run acts s = Inr s' \<Longrightarrow> turn_inv n s'"
proof (induction acts arbitrary: s)
  case Nil
  then show ?case by simp
next
  case (Cons a acts)
  from Cons.prems(3) obtain s1 where s1: "step a s = Inr s1" and r: "run acts s1 = Inr s'"
    by (auto split: sum.splits)
  from Cons.prems(2) s1 have u: "undisturbed a s" and t: "in_turn acts s1" by simp_all
  from Cons.prems(1) u s1 have "turn_inv n s1" by (rule turn_inv_step)
  then show ?case using t r by (rule Cons.IH)
qed

lemma won_Triggered: "is_Triggered x \<Longrightarrow> won x = []"
  by (cases x) simp_all

lemma won_all_Triggered: "list_all is_Triggered xs \<Longrightarrow> concat (map won xs) = []"
  by (induction xs) (simp_all add: won_Triggered)

lemma not_InFlight_Triggered: "is_Triggered x \<Longrightarrow> \<not> is_InFlight x"
  by (cases x) simp_all

lemma turn_inv_start:
  "list_all is_Triggered (instances s) \<Longrightarrow> turn_inv (currentNonce_value s) s"
  by (simp add: turn_inv_def successful_nonces_def won_all_Triggered list_all_length
                not_InFlight_Triggered)

text \<open>
  Claim C2, amended. The nonce is read when the request is built and the counter is
  incremented separately, after a successful broadcast. Take any schedule of events,
  steps of dispatch instances and refreshes in which no instance builds its request
  while another instance is between its own read and its completion, and in which no
  refresh observes a value above the counter. If the process runs through it, the
  multiset of the nonces used by the K dispatches that succeeded is exactly
  initial, initial + 1, ..., initial + K - 1, and the counter ends at initial + K.
\<close>

theorem dispatches_in_turn_consecutive:
  assumes "list_all is_Triggered (instances s)"
      and "in_turn acts s"
      and "run acts s = Inr s'"
  shows "mset (successful_nonces s')
           = mset [currentNonce_value s ..< currentNonce_value s + length (successful_nonces s')]
         \<and> currentNonce_value s' = currentNonce_value s + length (successful_nonces s')"
proof -
  from assms have inv: "turn_inv (currentNonce_value s) s'"
    by (intro turn_inv_run [OF turn_inv_start])
  then have m: "mset (successful_nonces s') = mset [currentNonce_value s ..< currentNonce_value s']"
    and le: "currentNonce_value s \<le> currentNonce_value s'"
    by (simp_all add: turn_inv_def)
  from m have "size (mset (successful_nonces s')) = size (mset [currentNonce_value s ..< currentNonce_value s'])"
    by simp
  then have "length (successful_nonces s') = currentNonce_value s' - currentNonce_value s"
    by simp
  with le have "currentNonce_value s' = currentNonce_value s + length (successful_nonces s')"
    by simp
  with m show ?thesis by simp
qed

text \<open>
  Two dispatches in turn from counter 7, with a refresh between them that observes 8,
  the value the counter already has.
\<close>

theorem dispatches_in_turn_consecutive_witness:
  "map_sum id (mset \<circ> successful_nonces) (run
      [TokenCreate calm ''0x4444aa'' 1700000000, Advance 0, Advance 0, Refresh (Inr 8),
       TokenCreate calm ''0x4444bb'' 1700000000, Advance 1, Advance 1]
      \<lparr>currentNonce_value = 7, instances = []\<rparr>) = Inr {#7, 8#}
   \<and> map_sum id currentNonce_value (run
      [TokenCreate calm ''0x4444aa'' 1700000000, Advance 0, Advance 0, Refresh (Inr 8),
       TokenCreate calm ''0x4444bb'' 1700000000, Advance 1, Advance 1]
      \<lparr>currentNonce_value = 7, instances = []\<rparr>) = Inr 9"
proof -
  let ?acts = "[TokenCreate calm ''0x4444aa'' 1700000000, Advance 0, Advance 0, Refresh (Inr 8),
       TokenCreate calm ''0x4444bb'' 1700000000, Advance 1, Advance 1]"
  let ?s = "\<lparr>currentNonce_value = 7, instances = []\<rparr>"
  obtain s' where r: "run ?acts ?s = Inr s'"
    by (simp add: world_eval)
  have a: "list_all is_Triggered (instances ?s)" by simp
  have t: "in_turn ?acts ?s"
    by (simp add: world_eval idle_def)
  have two: "length (successful_nonces s') = 2"
    using r by (auto simp: world_eval successful_nonces_def)
  from dispatches_in_turn_consecutive [OF a t r] two
  have "mset (successful_nonces s') = {#7, 8#} \<and> currentNonce_value s' = 9"
    by (simp add: upt_conv_Cons)
  with r show ?thesis by simp
qed

end
